theory Spec2Isabelle
  imports Main
begin

section \<open>The tutorial HTTP server (inexpress.js) of the blog post\<close>

text \<open>
  The server is JavaScript on Node. Strings are modelled as \<open>string\<close>: the list of the
  UTF-8 bytes of the text, which is exact on the ASCII text of an HTTP request line.
  \<open>toUpperCase\<close> and \<open>toLowerCase\<close> are the ASCII case maps (the part of the JavaScript
  functions that acts on ASCII letters). \<open>undefined\<close> is \<open>None\<close>. An exception is a value
  of type \<open>error\<close> on the left of a sum.
\<close>

datatype error =
    InvalidURL            \<comment> \<open>\<open>new URL(...)\<close>: TypeError, invalid URL\<close>
  | NotAFunction          \<comment> \<open>calling a property that holds a number\<close>
  | UndefinedReceiver     \<comment> \<open>a method call on \<open>undefined\<close>\<close>
  | InvalidArgType        \<comment> \<open>\<open>path.posix.join\<close> on a non-string\<close>

subsection \<open>Characters and strings\<close>

definition CRLF :: string where
  "CRLF = [CHR 0x0D, CHR 0x0A]"

definition toLowerChar :: "char \<Rightarrow> char" where
  "toLowerChar c =
     (case map_of (zip ''ABCDEFGHIJKLMNOPQRSTUVWXYZ'' ''abcdefghijklmnopqrstuvwxyz'') c of
        Some d \<Rightarrow> d | None \<Rightarrow> c)"

definition toUpperChar :: "char \<Rightarrow> char" where
  "toUpperChar c =
     (case map_of (zip ''abcdefghijklmnopqrstuvwxyz'' ''ABCDEFGHIJKLMNOPQRSTUVWXYZ'') c of
        Some d \<Rightarrow> d | None \<Rightarrow> c)"

definition toLowerCase :: "string \<Rightarrow> string" where
  "toLowerCase s = map toLowerChar s"

definition toUpperCase :: "string \<Rightarrow> string" where
  "toUpperCase s = map toUpperChar s"

definition digit_char :: "nat \<Rightarrow> char" where
  "digit_char d = ''0123456789ABCDEF'' ! d"

text \<open>\<open>String(n)\<close> for a non-negative integer below \<open>10^21\<close>: its decimal digits.\<close>

fun string_of_nat :: "nat \<Rightarrow> string" where
  "string_of_nat n =
     (if n < 10 then [digit_char n]
      else string_of_nat (n div 10) @ [digit_char (n mod 10)])"

text \<open>
  \<open>s.split(sep)\<close> with a separator of one character: every occurrence separates; the
  result is never empty.
\<close>

fun js_split :: "char \<Rightarrow> string \<Rightarrow> string list" where
  "js_split sep [] = [[]]"
| "js_split sep (c # cs) =
     (if c = sep then [] # js_split sep cs
      else (case js_split sep cs of [] \<Rightarrow> [[c]] | t # ts \<Rightarrow> (c # t) # ts))"

text \<open>\<open>xs.join(sep)\<close> on an array of strings.\<close>

fun js_join :: "string \<Rightarrow> string list \<Rightarrow> string" where
  "js_join sep [] = []"
| "js_join sep [x] = x"
| "js_join sep (x # y # ys) = x @ sep @ js_join sep (y # ys)"

text \<open>Array destructuring reads an index; a missing element is \<open>undefined\<close>.\<close>

definition element :: "'a list \<Rightarrow> nat \<Rightarrow> 'a option" where
  "element xs i = (if i < length xs then Some (xs ! i) else None)"

text \<open>String concatenation turns \<open>undefined\<close> into the text \<open>undefined\<close>.\<close>

definition js_string :: "string option \<Rightarrow> string" where
  "js_string v = (case v of None \<Rightarrow> ''undefined'' | Some s \<Rightarrow> s)"

definition endsWith :: "string \<Rightarrow> char \<Rightarrow> bool" where
  "endsWith p c = (p \<noteq> [] \<and> last p = c)"

subsection \<open>Strings and Buffers\<close>

text \<open>
  What is sent or received is a string or a \<open>Buffer\<close> of bytes. \<open>buf.toString()\<close> decodes
  UTF-8 as the Encoding standard has it: a well-formed sequence gives its character, and
  every ill-formed part gives U+FFFD. On the bytes of the resulting text: well-formed
  sequences stay, and every ill-formed part becomes \<open>EF BF BD\<close>. The state of the decoder
  is the bytes of the sequence seen so far, the number of bytes still needed, and the
  bounds for the next byte.
\<close>

definition replacement :: string where
  "replacement = [CHR 0xEF, CHR 0xBF, CHR 0xBD]"

fun utf8_decode :: "string \<Rightarrow> nat \<Rightarrow> nat \<Rightarrow> nat \<Rightarrow> string \<Rightarrow> string" where
  "utf8_decode seen needed lower upper [] = (if needed = 0 then [] else replacement)"
| "utf8_decode seen needed lower upper (c # cs) =
     (let b = (of_char c :: nat) in
      if needed = 0 then
        (if b \<le> 0x7F then c # utf8_decode [] 0 0x80 0xBF cs
         else if 0xC2 \<le> b \<and> b \<le> 0xDF then utf8_decode [c] 1 0x80 0xBF cs
         else if 0xE0 \<le> b \<and> b \<le> 0xEF then
           utf8_decode [c] 2 (if b = 0xE0 then 0xA0 else 0x80) (if b = 0xED then 0x9F else 0xBF) cs
         else if 0xF0 \<le> b \<and> b \<le> 0xF4 then
           utf8_decode [c] 3 (if b = 0xF0 then 0x90 else 0x80) (if b = 0xF4 then 0x8F else 0xBF) cs
         else replacement @ utf8_decode [] 0 0x80 0xBF cs)
      else if b < lower \<or> upper < b then replacement @ utf8_decode [] 0 0x80 0xBF (c # cs)
      else if needed = 1 then seen @ [c] @ utf8_decode [] 0 0x80 0xBF cs
      else utf8_decode (seen @ [c]) (needed - 1) 0x80 0xBF cs)"

definition Buffer_toString :: "string \<Rightarrow> string" where
  "Buffer_toString b = utf8_decode [] 0 0x80 0xBF b"

datatype chunk = Text string | Buffer string

text \<open>
  \<open>s + x\<close> with a string \<open>s\<close> takes the text of \<open>x\<close>; \<open>sock.write(x)\<close> puts the UTF-8
  bytes of a string, and the bytes of a Buffer as they are, on the connection.
\<close>

fun chunk_text :: "chunk \<Rightarrow> string" where
  "chunk_text (Text s) = s"
| "chunk_text (Buffer b) = Buffer_toString b"

fun chunk_bytes :: "chunk \<Rightarrow> string" where
  "chunk_bytes (Text s) = s"
| "chunk_bytes (Buffer b) = b"

subsection \<open>JavaScript objects used as tables\<close>

text \<open>
  The values that the tables and the headers can hold: a string, or one of the members
  that an object literal inherits from \<open>Object.prototype\<close> (built-in functions, and the
  prototype itself through \<open>__proto__\<close>).
\<close>

datatype jsvalue =
    JString string
  | JFunction string      \<comment> \<open>the built-in function of that name\<close>
  | JObjectPrototype

text \<open>The conversion of a template literal \<open>`${val}`\<close>.\<close>

fun toText :: "jsvalue \<Rightarrow> string" where
  "toText (JString s) = s"
| "toText (JFunction n) = ''function '' @ n @ ''() { [native code] }''"
| "toText JObjectPrototype = ''[object Object]''"

fun truthy :: "jsvalue \<Rightarrow> bool" where
  "truthy (JString s) = (s \<noteq> [])"
| "truthy (JFunction n) = True"
| "truthy JObjectPrototype = True"

definition Object_prototype :: "(string \<times> jsvalue) list" where
  "Object_prototype =
     [(''constructor'', JFunction ''Object''),
      (''__defineGetter__'', JFunction ''__defineGetter__''),
      (''__defineSetter__'', JFunction ''__defineSetter__''),
      (''hasOwnProperty'', JFunction ''hasOwnProperty''),
      (''__lookupGetter__'', JFunction ''__lookupGetter__''),
      (''__lookupSetter__'', JFunction ''__lookupSetter__''),
      (''isPrototypeOf'', JFunction ''isPrototypeOf''),
      (''propertyIsEnumerable'', JFunction ''propertyIsEnumerable''),
      (''toString'', JFunction ''toString''),
      (''valueOf'', JFunction ''valueOf''),
      (''__proto__'', JObjectPrototype),
      (''toLocaleString'', JFunction ''toLocaleString'')]"

text \<open>
  An object literal is the list of its own entries in the order of \<open>Object.entries\<close>.
  \<open>obj[k]\<close> reads an own property, else an inherited one; \<open>k in obj\<close> is true for both.
\<close>

definition get_prop :: "(string \<times> jsvalue) list \<Rightarrow> string \<Rightarrow> jsvalue option" where
  "get_prop obj k =
     (case map_of obj k of Some v \<Rightarrow> Some v | None \<Rightarrow> map_of Object_prototype k)"

definition has_prop :: "(string \<times> jsvalue) list \<Rightarrow> string \<Rightarrow> bool" where
  "has_prop obj k = (get_prop obj k \<noteq> None)"

text \<open>
  Own keys that are array indices (canonical decimal numerals below \<open>2^32 - 1\<close>) are
  enumerated first, in ascending order; every other key follows in insertion order.
\<close>

fun nat_of_digits :: "nat \<Rightarrow> string \<Rightarrow> nat" where
  "nat_of_digits acc [] = acc"
| "nat_of_digits acc (c # cs) = nat_of_digits (10 * acc + (of_char c - 48)) cs"

definition is_array_index :: "string \<Rightarrow> bool" where
  "is_array_index k =
     (k \<noteq> [] \<and> list_all (\<lambda>c. c \<in> set ''0123456789'') k
      \<and> (k = ''0'' \<or> hd k \<noteq> CHR ''0'') \<and> nat_of_digits 0 k < 4294967295)"

fun insert_index :: "string \<Rightarrow> jsvalue \<Rightarrow> (string \<times> jsvalue) list \<Rightarrow> (string \<times> jsvalue) list" where
  "insert_index k v [] = [(k, v)]"
| "insert_index k v ((k', v') # es) =
     (if is_array_index k' \<and> nat_of_digits 0 k' < nat_of_digits 0 k
      then (k', v') # insert_index k v es
      else (k, v) # (k', v') # es)"

text \<open>
  \<open>obj[k] = v\<close>: an existing own property keeps its place; an assignment to the
  accessor \<open>__proto__\<close> creates no own property.
\<close>

definition set_prop :: "string \<Rightarrow> jsvalue \<Rightarrow> (string \<times> jsvalue) list \<Rightarrow> (string \<times> jsvalue) list" where
  "set_prop k v obj =
     (if k = ''__proto__'' then obj
      else if k \<in> fst ` set obj then map (\<lambda>(k', v'). if k' = k then (k', v) else (k', v')) obj
      else if is_array_index k then insert_index k v obj
      else obj @ [(k, v)])"

subsection \<open>Status codes and MIME types\<close>

definition HTTP_STATUS_CODES :: "(string \<times> jsvalue) list" where
  "HTTP_STATUS_CODES =
     [(''200'', JString ''OK''),
      (''301'', JString ''Moved Permanently''),
      (''404'', JString ''Not Found''),
      (''500'', JString ''Internal Server Error'')]"

definition MIME_TYPES :: "(string \<times> jsvalue) list" where
  "MIME_TYPES =
     [(''jpg'', JString ''image/jpeg''),
      (''jpeg'', JString ''image/jpeg''),
      (''png'', JString ''image/png''),
      (''html'', JString ''text/html''),
      (''css'', JString ''text/css''),
      (''txt'', JString ''text/plain'')]"

subsection \<open>The Request class\<close>

record request =
  "method" :: "string option"
  path :: "string option"
  others :: "string list"

definition Request :: "string \<Rightarrow> request" where
  "Request s =
     (let tokens = js_split (CHR '' '') s
      in \<lparr>method = element tokens 0, path = element tokens 1, others = drop 2 tokens\<rparr>)"

subsection \<open>The Response class\<close>

text \<open>
  The socket is the log of the calls made on it. \<open>status_prop\<close> is the own property
  \<open>status\<close> of the object: \<open>None\<close> while the method of the class is in place, and
  \<open>Some n\<close> once an assignment \<open>res.status = n\<close> has put a number over it.
\<close>

datatype sock_call = Write string | End

record response =
  statusCode :: nat
  version :: string
  headers :: "(string \<times> jsvalue) list"
  sock :: "sock_call list"
  body :: string
  status_prop :: "nat option"

definition Response :: "sock_call list \<Rightarrow> nat option \<Rightarrow> string option \<Rightarrow> response" where
  "Response socket statusCode' version' =
     \<lparr>statusCode = (case statusCode' of None \<Rightarrow> 200 | Some n \<Rightarrow> n),
      version = (case version' of None \<Rightarrow> ''HTTP/1.1'' | Some v \<Rightarrow> v),
      headers = [],
      sock = socket,
      body = [],
      status_prop = None\<rparr>"

definition sock_write :: "chunk \<Rightarrow> response \<Rightarrow> response" where
  "sock_write d res = res\<lparr>sock := sock res @ [Write (chunk_bytes d)]\<rparr>"

definition set_header :: "string \<Rightarrow> jsvalue \<Rightarrow> response \<Rightarrow> response" where
  "set_header name val res = res\<lparr>headers := set_prop name val (headers res)\<rparr>"

definition end_conn :: "response \<Rightarrow> response" where
  "end_conn res = res\<lparr>sock := sock res @ [End]\<rparr>"

definition statusLineToString :: "response \<Rightarrow> string" where
  "statusLineToString res =
     js_join '' ''
       [version res,
        string_of_nat (statusCode res),
        (case get_prop HTTP_STATUS_CODES (string_of_nat (statusCode res)) of
           None \<Rightarrow> [] | Some v \<Rightarrow> toText v)]
     @ CRLF"

definition headersToString :: "response \<Rightarrow> string" where
  "headersToString res =
     js_join CRLF (map (\<lambda>(name, val). name @ '': '' @ toText val) (headers res)) @ CRLF"

text \<open>The first statement of \<open>send\<close>, and its two branches.\<close>

definition default_content_type :: "response \<Rightarrow> response" where
  "default_content_type res =
     (if \<not> has_prop (headers res) ''Content-Type''
      then set_header ''Content-Type'' (JString ''text/html'') res
      else res)"

definition write_single :: "chunk \<Rightarrow> response \<Rightarrow> response" where
  "write_single body' res =
     sock_write
       (Text (statusLineToString res @ headersToString res @ CRLF @ chunk_text body')) res"

definition write_multi :: "chunk \<Rightarrow> response \<Rightarrow> response" where
  "write_multi body' res =
     sock_write body'
       (sock_write (Text CRLF)
         (sock_write (Text (headersToString res))
           (sock_write (Text (statusLineToString res)) res)))"

definition send :: "chunk \<Rightarrow> response \<Rightarrow> response" where
  "send body' res =
     (let res1 = default_content_type res;
          res2 = (if statusCode res1 = 301 then write_single body' res1
                  else write_multi body' res1)
      in end_conn res2)"

definition status :: "nat \<Rightarrow> response \<Rightarrow> error + response" where
  "status code res =
     (case status_prop res of
        None \<Rightarrow> Inr (res\<lparr>statusCode := code\<rparr>)
      | Some n \<Rightarrow> Inl NotAFunction)"

text \<open>The bytes that reach the connection: the written chunks, in order.\<close>

fun wire :: "sock_call list \<Rightarrow> string" where
  "wire [] = []"
| "wire (Write d # cs) = d @ wire cs"
| "wire (End # cs) = wire cs"

subsection \<open>The URL parser of the platform, on \<open>'http://127.0.0.1' + s\<close>\<close>

text \<open>
  \<open>new URL('http://127.0.0.1' + s)\<close> follows the URL standard. The parser drops trailing
  C0 controls and spaces, then every tab and newline. What follows \<open>127.0.0.1\<close> up to the
  first of \<open>/ \ ? #\<close> still belongs to the authority (credentials, host, port); the
  platform's verdict on a non-empty such text is the parameter \<open>hostOK\<close>, and the host
  \<open>127.0.0.1\<close> alone is valid. The path state then splits the rest into segments,
  percent-encodes, resolves dot segments, and stops at \<open>?\<close> or \<open>#\<close>.
\<close>

definition is_c0_or_space :: "char \<Rightarrow> bool" where
  "is_c0_or_space c = ((of_char c :: nat) \<le> 0x20)"

definition is_tab_or_newline :: "char \<Rightarrow> bool" where
  "is_tab_or_newline c = (c = CHR 0x09 \<or> c = CHR 0x0A \<or> c = CHR 0x0D)"

definition url_preprocess :: "string \<Rightarrow> string" where
  "url_preprocess s =
     filter (\<lambda>c. \<not> is_tab_or_newline c) (rev (dropWhile is_c0_or_space (rev s)))"

definition is_slash :: "char \<Rightarrow> bool" where
  "is_slash c = (c = CHR ''/'' \<or> c = CHR 0x5C)"

definition is_authority_end :: "char \<Rightarrow> bool" where
  "is_authority_end c = (is_slash c \<or> c = CHR ''?'' \<or> c = CHR ''#'')"

definition in_path_percent_encode_set :: "char \<Rightarrow> bool" where
  "in_path_percent_encode_set c =
     ((of_char c :: nat) \<le> 0x1F \<or> (of_char c :: nat) > 0x7E
      \<or> c \<in> set '' \"#<>?^`{}'')"

definition percent_encode :: "char \<Rightarrow> string" where
  "percent_encode c =
     (if in_path_percent_encode_set c
      then [CHR ''%'', digit_char (of_char c div 16), digit_char (of_char c mod 16)]
      else [c])"

definition is_single_dot :: "string \<Rightarrow> bool" where
  "is_single_dot buf = (toLowerCase buf \<in> set [''.'', ''%2e''])"

definition is_double_dot :: "string \<Rightarrow> bool" where
  "is_double_dot buf = (toLowerCase buf \<in> set [''..'', ''.%2e'', ''%2e.'', ''%2e%2e''])"

text \<open>
  The end of a segment in the path state: \<open>slash\<close> says whether the segment was ended
  by a slash (else by the end of the input, \<open>?\<close> or \<open>#\<close>).
\<close>

definition finish_segment :: "string list \<Rightarrow> string \<Rightarrow> bool \<Rightarrow> string list" where
  "finish_segment segs buf slash =
     (if is_double_dot buf then (if slash then butlast segs else butlast segs @ [[]])
      else if is_single_dot buf then (if slash then segs else segs @ [[]])
      else segs @ [buf])"

fun path_state :: "string list \<Rightarrow> string \<Rightarrow> string \<Rightarrow> string list" where
  "path_state segs buf [] = finish_segment segs buf False"
| "path_state segs buf (c # cs) =
     (if is_slash c then path_state (finish_segment segs buf True) [] cs
      else if c = CHR ''?'' \<or> c = CHR ''#'' then finish_segment segs buf False
      else path_state segs (buf @ percent_encode c) cs)"

text \<open>The path start state consumes one leading slash, if there is one.\<close>

fun path_start_state :: "string \<Rightarrow> string list" where
  "path_start_state [] = path_state [] [] []"
| "path_start_state (c # cs) =
     (if is_slash c then path_state [] [] cs else path_state [] [] (c # cs))"

definition serialize_path :: "string list \<Rightarrow> string" where
  "serialize_path segs = concat (map (\<lambda>seg. CHR ''/'' # seg) segs)"

definition URL_pathname :: "(string \<Rightarrow> bool) \<Rightarrow> string \<Rightarrow> error + string" where
  "URL_pathname hostOK s =
     (let input = url_preprocess s;
          authority = takeWhile (\<lambda>c. \<not> is_authority_end c) input;
          rest = dropWhile (\<lambda>c. \<not> is_authority_end c) input
      in if authority \<noteq> [] \<and> \<not> hostOK authority then Inl InvalidURL
         else Inr (serialize_path (path_start_state rest)))"

text \<open>
  A platform whose URL parser accepts nothing after \<open>127.0.0.1\<close> in the authority. It
  is used where a statement needs one concrete platform; paths that start with a slash
  never consult it.
\<close>

definition strict_host :: "string \<Rightarrow> bool" where
  "strict_host authority = False"

subsection \<open>The App class\<close>

type_synonym handler = "request \<Rightarrow> response \<Rightarrow> error + response"

type_synonym middleware_fn =
  "request \<Rightarrow> response \<Rightarrow> (response \<Rightarrow> error + response) \<Rightarrow> error + response"

record app =
  routes :: "string \<rightharpoonup> handler"
  middleware :: "middleware_fn option"

definition App :: app where
  "App = \<lparr>routes = Map.empty, middleware = None\<rparr>"

definition normalizePath :: "(string \<Rightarrow> bool) \<Rightarrow> string option \<Rightarrow> error + string" where
  "normalizePath hostOK reqPath =
     (case URL_pathname hostOK (js_string reqPath) of
        Inl e \<Rightarrow> Inl e
      | Inr pathname \<Rightarrow>
          (let p = toLowerCase pathname
           in Inr (if endsWith p (CHR ''/'') then butlast p else p)))"

definition createRouteKey ::
  "(string \<Rightarrow> bool) \<Rightarrow> string option \<Rightarrow> string option \<Rightarrow> error + string" where
  "createRouteKey hostOK method' reqPath =
     (case method' of
        None \<Rightarrow> Inl UndefinedReceiver
      | Some m \<Rightarrow>
          (case normalizePath hostOK reqPath of
             Inl e \<Rightarrow> Inl e
           | Inr np \<Rightarrow> Inr (toUpperCase m @ '' '' @ np)))"

text \<open>
  Every route key holds a space, so no key names a member inherited from
  \<open>Object.prototype\<close>: \<open>key in this.routes\<close> is membership in the table itself.
\<close>

definition processRoutes ::
  "(string \<Rightarrow> bool) \<Rightarrow> app \<Rightarrow> request \<Rightarrow> response \<Rightarrow> error + response" where
  "processRoutes hostOK a req res =
     (case createRouteKey hostOK (method req) (path req) of
        Inl e \<Rightarrow> Inl e
      | Inr key \<Rightarrow>
          (case routes a key of
             Some h \<Rightarrow> h req res
           | None \<Rightarrow> Inr (send (Text ''Page not found'') (res\<lparr>status_prop := Some 404\<rparr>))))"

definition handleRequest ::
  "(string \<Rightarrow> bool) \<Rightarrow> app \<Rightarrow> sock_call list \<Rightarrow> string \<Rightarrow> error + response" where
  "handleRequest hostOK a sock' binaryData =
     (let req = Request (Buffer_toString binaryData);
          res = Response sock' None None
      in case middleware a of
           Some m \<Rightarrow> m req res (\<lambda>r. processRoutes hostOK a req r)
         | None \<Rightarrow> processRoutes hostOK a req res)"

definition get :: "(string \<Rightarrow> bool) \<Rightarrow> string \<Rightarrow> handler \<Rightarrow> app \<Rightarrow> error + app" where
  "get hostOK reqPath callback a =
     (case createRouteKey hostOK (Some ''GET'') (Some reqPath) of
        Inl e \<Rightarrow> Inl e
      | Inr key \<Rightarrow> Inr (a\<lparr>routes := (routes a)(key \<mapsto> callback)\<rparr>))"

definition use :: "middleware_fn \<Rightarrow> app \<Rightarrow> app" where
  "use cb a = a\<lparr>middleware := Some cb\<rparr>"

text \<open>
  A sequence of calls \<open>app.get(path, handler)\<close>, one after the other as in \<open>app.js\<close>;
  an exception in one of them ends the sequence.
\<close>

fun get_all :: "(string \<Rightarrow> bool) \<Rightarrow> (string \<times> handler) list \<Rightarrow> app \<Rightarrow> error + app" where
  "get_all hostOK [] a = Inr a"
| "get_all hostOK ((reqPath, callback) # calls) a =
     (case get hostOK reqPath callback a of
        Inl e \<Rightarrow> Inl e
      | Inr a' \<Rightarrow> get_all hostOK calls a')"

subsection \<open>The path module of the platform\<close>

text \<open>
  \<open>path.posix.join(a, b)\<close> joins the non-empty arguments with a slash and normalizes:
  empty and \<open>.\<close> segments go, \<open>..\<close> removes the segment before it (and stays when the
  path is relative and nothing is left to remove); a leading and a trailing slash stay.
\<close>

fun normalizeString :: "bool \<Rightarrow> string list \<Rightarrow> string list \<Rightarrow> string list" where
  "normalizeString allowAboveRoot res [] = res"
| "normalizeString allowAboveRoot res (seg # segs) =
     (if seg = [] \<or> seg = ''.'' then normalizeString allowAboveRoot res segs
      else if seg = ''..'' then
        (if res \<noteq> [] \<and> last res \<noteq> ''..'' then normalizeString allowAboveRoot (butlast res) segs
         else if allowAboveRoot then normalizeString allowAboveRoot (res @ [''..'']) segs
         else normalizeString allowAboveRoot res segs)
      else normalizeString allowAboveRoot (res @ [seg]) segs)"

definition posix_normalize :: "string \<Rightarrow> string" where
  "posix_normalize p =
     (if p = [] then ''.''
      else
        (let isAbsolute = (hd p = CHR ''/'');
             trailingSeparator = (last p = CHR ''/'');
             q = js_join ''/'' (normalizeString (\<not> isAbsolute) [] (js_split (CHR ''/'') p))
         in if q = [] then (if isAbsolute then ''/'' else if trailingSeparator then ''./'' else ''.'')
            else (if isAbsolute then ''/'' else []) @ q @ (if trailingSeparator then ''/'' else [])))"

definition posix_join :: "string \<Rightarrow> string option \<Rightarrow> error + string" where
  "posix_join a b' =
     (case b' of
        None \<Rightarrow> Inl InvalidArgType
      | Some b \<Rightarrow>
          (let joined = (if a = [] then b else if b = [] then a else a @ ''/'' @ b)
           in Inr (if joined = [] then ''.'' else posix_normalize joined)))"

text \<open>
  \<open>path.extname(p)\<close>: from the last dot of the last component of \<open>p\<close> (trailing slashes
  aside) to its end; empty when there is no dot, when the only dot starts the component,
  and for the component \<open>..\<close>.
\<close>

definition extname :: "string \<Rightarrow> string" where
  "extname p =
     (let base = last (js_split (CHR ''/'') (rev (dropWhile (\<lambda>c. c = CHR ''/'') (rev p))))
      in if CHR ''.'' \<notin> set base then []
         else
           (let ext = CHR ''.'' # rev (takeWhile (\<lambda>c. c \<noteq> CHR ''.'') (rev base))
            in if length ext = length base \<or> base = ''..'' then [] else ext))"

definition getExtension :: "string \<Rightarrow> string" where
  "getExtension fileName = drop 1 (toLowerCase (extname fileName))"

definition getMIMEType :: "string \<Rightarrow> jsvalue" where
  "getMIMEType fileName =
     (case get_prop MIME_TYPES (getExtension fileName) of
        Some v \<Rightarrow> (if truthy v then v else JString [])
      | None \<Rightarrow> JString [])"

subsection \<open>The static-file middleware\<close>

text \<open>
  \<open>readFile\<close> is the file system: the bytes of the file at a path, or \<open>None\<close> when
  \<open>fs.readFile\<close> reports an error. \<open>next\<close> continues with the response as it is then.
\<close>

definition serveStatic :: "(string \<Rightarrow> string option) \<Rightarrow> string \<Rightarrow> middleware_fn" where
  "serveStatic readFile basePath req res next =
     (case posix_join basePath (path req) of
        Inl e \<Rightarrow> Inl e
      | Inr filePath \<Rightarrow>
          (case readFile filePath of
             None \<Rightarrow> next res
           | Some data \<Rightarrow>
               Inr (send (Buffer data) (set_header ''Content-Type'' (getMIMEType filePath) res))))"

subsection \<open>The request parser as the specification words it\<close>

text \<open>
  The specification has the request text split on whitespace. \<open>spec_split_whitespace\<close>
  follows these words: every ASCII whitespace character (space, tab, line feed, vertical
  tab, form feed, carriage return) separates two tokens.
\<close>

definition is_ascii_whitespace :: "char \<Rightarrow> bool" where
  "is_ascii_whitespace c = (c \<in> set [CHR '' '', CHR 0x09, CHR 0x0A, CHR 0x0B, CHR 0x0C, CHR 0x0D])"

fun spec_split_whitespace :: "string \<Rightarrow> string list" where
  "spec_split_whitespace [] = [[]]"
| "spec_split_whitespace (c # cs) =
     (if is_ascii_whitespace c then [] # spec_split_whitespace cs
      else (case spec_split_whitespace cs of [] \<Rightarrow> [[c]] | t # ts \<Rightarrow> (c # t) # ts))"

definition spec_Request :: "string \<Rightarrow> request" where
  "spec_Request s =
     (let tokens = spec_split_whitespace s
      in \<lparr>method = element tokens 0, path = element tokens 1, others = drop 2 tokens\<rparr>)"

subsection \<open>Examples from the article's \<open>app.js\<close>\<close>

text \<open>The handler of \<open>app.get('/img/animal1.jpg', ...)\<close>: it sends the file name.\<close>

definition animal1_handler :: handler where
  "animal1_handler req res = Inr (send (Text ''animal1.jpg'') res)"

text \<open>The handler of \<open>app.get('/css/styles.css', ...)\<close>.\<close>

definition styles_handler :: handler where
  "styles_handler req res = Inr (send (Text ''/css/styles.css'') res)"

text \<open>A file system that holds one file below \<open>public\<close>.\<close>

definition one_file_fs :: "string \<Rightarrow> string \<Rightarrow> string \<Rightarrow> string option" where
  "one_file_fs name content p = (if p = name then Some content else None)"

subsection \<open>Path segments that the URL parser leaves as they are\<close>

text \<open>
  A character that the path state copies unchanged and that ends no segment; a segment
  of such characters that is no dot segment.
\<close>

definition safe_char :: "char \<Rightarrow> bool" where
  "safe_char c = (\<not> in_path_percent_encode_set c \<and> \<not> is_slash c)"

definition clean_segment :: "string \<Rightarrow> bool" where
  "clean_segment seg = (list_all safe_char seg \<and> \<not> is_single_dot seg \<and> \<not> is_double_dot seg)"

section \<open>Properties\<close>

subsection \<open>Splitting and joining\<close>

lemma js_split_nonempty: "js_split sep s \<noteq> []"
  by (induction s) (auto split: list.splits)

lemma js_join_Cons: "ts \<noteq> [] \<Longrightarrow> js_join sep (t # ts) = t @ sep @ js_join sep ts"
  by (cases ts) simp_all

lemma js_join_Cons_Cons: "js_join sep ((c # t) # ts) = c # js_join sep (t # ts)"
  by (cases ts) simp_all

lemma js_join_js_split: "js_join [sep] (js_split sep s) = s"
proof (induction s)
  case Nil
  show ?case by simp
next
  case (Cons c cs)
  show ?case
  proof (cases "c = sep")
    case True
    with Cons show ?thesis by (simp add: js_join_Cons js_split_nonempty)
  next
    case False
    obtain t ts where ts: "js_split sep cs = t # ts"
      using js_split_nonempty [of sep cs] by (cases "js_split sep cs") auto
    with Cons False show ?thesis by (simp add: js_join_Cons_Cons)
  qed
qed

lemma js_split_tokens: "list_all (\<lambda>t. sep \<notin> set t) (js_split sep s)"
  by (induction s) (auto split: list.splits)

lemma js_split_append:
  "sep \<notin> set t \<Longrightarrow> js_split sep (t @ r) = (t @ hd (js_split sep r)) # tl (js_split sep r)"
proof (induction t)
  case Nil
  then show ?case using js_split_nonempty [of sep r] by simp
next
  case (Cons c t)
  then show ?case by auto
qed

lemma js_split_js_join:
  "ts \<noteq> [] \<Longrightarrow> list_all (\<lambda>t. sep \<notin> set t) ts \<Longrightarrow> js_split sep (js_join [sep] ts) = ts"
proof (induction ts)
  case Nil
  then show ?case by simp
next
  case (Cons x ts)
  show ?case
  proof (cases ts)
    case Nil
    with Cons.prems show ?thesis using js_split_append [of sep x "[]"] by simp
  next
    case (Cons y ys)
    with Cons.prems Cons.IH have "js_split sep (js_join [sep] ts) = ts" by simp
    with Cons Cons.prems show ?thesis
      using js_split_append [of sep x "sep # js_join [sep] ts"] by simp
  qed
qed

subsection \<open>The request parser\<close>

text \<open>
  C3, as the code has it. The constructor splits the text at every single space
  (U+0020), and at nothing else: the tokens hold no space, joined by single spaces they
  give the text back, and they are the only such sequence. The first token is the method
  (always present), the second is the path (\<open>undefined\<close> when there is none), the
  remaining tokens are \<open>others\<close>, in order.
\<close>

theorem Request_splits_at_each_space:
  "js_join '' '' (js_split (CHR '' '') s) = s
   \<and> list_all (\<lambda>t. CHR '' '' \<notin> set t) (js_split (CHR '' '') s)
   \<and> (\<forall>ts. ts \<noteq> [] \<and> list_all (\<lambda>t. CHR '' '' \<notin> set t) ts \<and> js_join '' '' ts = s
          \<longrightarrow> ts = js_split (CHR '' '') s)
   \<and> method (Request s) = Some (hd (js_split (CHR '' '') s))
   \<and> path (Request s) = (case tl (js_split (CHR '' '') s) of [] \<Rightarrow> None | p # rest \<Rightarrow> Some p)
   \<and> others (Request s) = drop 2 (js_split (CHR '' '') s)"
proof -
  obtain t ts where ts: "js_split (CHR '' '') s = t # ts"
    using js_split_nonempty [of "CHR '' ''" s] by (cases "js_split (CHR '' '') s") auto
  have 1: "js_join '' '' (js_split (CHR '' '') s) = s"
    by (rule js_join_js_split)
  have 2: "list_all (\<lambda>t. CHR '' '' \<notin> set t) (js_split (CHR '' '') s)"
    by (rule js_split_tokens)
  have 3: "\<forall>ts. ts \<noteq> [] \<and> list_all (\<lambda>t. CHR '' '' \<notin> set t) ts \<and> js_join '' '' ts = s
          \<longrightarrow> ts = js_split (CHR '' '') s"
    using js_split_js_join [of _ "CHR '' ''"] by auto
  have 4: "method (Request s) = Some (hd (js_split (CHR '' '') s))"
    by (simp add: Request_def Let_def element_def ts)
  have 5: "path (Request s) = (case tl (js_split (CHR '' '') s) of [] \<Rightarrow> None | p # rest \<Rightarrow> Some p)"
    by (cases ts) (simp_all add: Request_def Let_def element_def ts)
  have 6: "others (Request s) = drop 2 (js_split (CHR '' '') s)"
    by (simp add: Request_def Let_def)
  from 1 2 3 4 5 6 show ?thesis by blast
qed

text \<open>The theorem at a request line with a doubled space: the empty token is kept.\<close>

theorem Request_splits_at_each_space_witness:
  "js_split (CHR '' '') ''GET /a  HTTP/1.1'' = [''GET'', ''/a'', [], ''HTTP/1.1'']
   \<and> method (Request ''GET /a  HTTP/1.1'') = Some ''GET''
   \<and> path (Request ''GET /a  HTTP/1.1'') = Some ''/a''
   \<and> others (Request ''GET /a  HTTP/1.1'') = [[], ''HTTP/1.1'']"
proof -
  have "[''GET'', ''/a'', [], ''HTTP/1.1''] = js_split (CHR '' '') ''GET /a  HTTP/1.1''"
    using Request_splits_at_each_space [of "''GET /a  HTTP/1.1''"] by simp
  then have eq: "js_split (CHR '' '') ''GET /a  HTTP/1.1'' = [''GET'', ''/a'', [], ''HTTP/1.1'']"
    by simp
  show ?thesis
    using Request_splits_at_each_space [of "''GET /a  HTTP/1.1''"] unfolding eq by simp
qed

text \<open>
  C3, as the specification words it (split on whitespace), fails. On a request with
  its line ends, the code keeps \<open>HTTP/1.1\<close>, the line end and \<open>Host:\<close> as one token
  where a split on whitespace separates them; on a tab between method and path, the code
  takes the whole text as the method and leaves the path undefined.
\<close>

theorem Request_whitespace_counterexample:
  "others (Request (''GET /a HTTP/1.1'' @ CRLF @ ''Host: x'' @ CRLF @ CRLF))
     = [''HTTP/1.1'' @ CRLF @ ''Host:'', ''x'' @ CRLF @ CRLF]
   \<and> others (spec_Request (''GET /a HTTP/1.1'' @ CRLF @ ''Host: x'' @ CRLF @ CRLF))
     = [''HTTP/1.1'', [], ''Host:'', ''x'', [], [], [], []]
   \<and> method (Request (''GET'' @ [CHR 0x09] @ ''/a'')) = Some (''GET'' @ [CHR 0x09] @ ''/a'')
   \<and> path (Request (''GET'' @ [CHR 0x09] @ ''/a'')) = None
   \<and> method (spec_Request (''GET'' @ [CHR 0x09] @ ''/a'')) = Some ''GET''
   \<and> path (spec_Request (''GET'' @ [CHR 0x09] @ ''/a'')) = Some ''/a''"
  by (simp add: Request_def spec_Request_def CRLF_def element_def is_ascii_whitespace_def)

subsection \<open>The response writer\<close>

lemma is_array_index_Content_Type: "\<not> is_array_index ''Content-Type''"
  by (simp add: is_array_index_def)

lemma has_prop_Content_Type:
  "has_prop obj ''Content-Type'' \<longleftrightarrow> ''Content-Type'' \<in> fst ` set obj"
proof -
  have "has_prop obj ''Content-Type'' \<longleftrightarrow> map_of obj ''Content-Type'' \<noteq> None"
    by (simp add: has_prop_def get_prop_def Object_prototype_def split: option.splits)
  then show ?thesis by (simp add: map_of_eq_None_iff)
qed

lemma headers_default_content_type:
  "headers (default_content_type res) =
     (if has_prop (headers res) ''Content-Type'' then headers res
      else headers res @ [(''Content-Type'', JString ''text/html'')])"
  by (simp add: default_content_type_def set_header_def set_prop_def
        is_array_index_Content_Type has_prop_Content_Type)

lemma default_content_type_fields:
  "statusCode (default_content_type res) = statusCode res"
  "version (default_content_type res) = version res"
  "body (default_content_type res) = body res"
  "status_prop (default_content_type res) = status_prop res"
  "sock (default_content_type res) = sock res"
  by (simp_all add: default_content_type_def set_header_def)

lemma write_fields:
  "statusCode (write_single b res) = statusCode res"
  "version (write_single b res) = version res"
  "body (write_single b res) = body res"
  "status_prop (write_single b res) = status_prop res"
  "headers (write_single b res) = headers res"
  "statusCode (write_multi b res) = statusCode res"
  "version (write_multi b res) = version res"
  "body (write_multi b res) = body res"
  "status_prop (write_multi b res) = status_prop res"
  "headers (write_multi b res) = headers res"
  by (simp_all add: write_single_def write_multi_def sock_write_def)

lemma sock_write_single:
  "sock (write_single b res) =
     sock res @ [Write (statusLineToString res @ headersToString res @ CRLF @ chunk_text b)]"
  by (simp add: write_single_def sock_write_def)

lemma statusLineToString_sock [simp]: "statusLineToString (res\<lparr>sock := s\<rparr>) = statusLineToString res"
  by (simp add: statusLineToString_def)

lemma headersToString_sock [simp]: "headersToString (res\<lparr>sock := s\<rparr>) = headersToString res"
  by (simp add: headersToString_def)

lemma sock_write_multi:
  "sock (write_multi b res) =
     sock res @ [Write (statusLineToString res), Write (headersToString res), Write CRLF,
                 Write (chunk_bytes b)]"
  by (simp add: write_multi_def sock_write_def)

lemma send_fields:
  "statusCode (send b res) = statusCode res"
  "version (send b res) = version res"
  "body (send b res) = body res"
  "status_prop (send b res) = status_prop res"
  "headers (send b res) = headers (default_content_type res)"
  by (simp_all add: send_def Let_def end_conn_def write_fields default_content_type_fields)

lemma sock_send:
  "sock (send b res) =
     (let r = default_content_type res
      in sock res @
         (if statusCode res = 301
          then [Write (statusLineToString r @ headersToString r @ CRLF @ chunk_text b)]
          else [Write (statusLineToString r), Write (headersToString r), Write CRLF,
                Write (chunk_bytes b)])
         @ [End])"
  by (simp add: send_def Let_def end_conn_def sock_write_single sock_write_multi
        default_content_type_fields)


text \<open>A Buffer of ASCII bytes has its own bytes as its text.\<close>

lemma Buffer_toString_ascii:
  "list_all (\<lambda>c. (of_char c :: nat) \<le> 0x7F) b \<Longrightarrow> Buffer_toString b = b"
  unfolding Buffer_toString_def by (induction b) simp_all

lemma chunk_text_ascii_Buffer:
  "list_all (\<lambda>c. (of_char c :: nat) \<le> 0x7F) b \<Longrightarrow> chunk_text (Buffer b) = chunk_bytes (Buffer b)"
  by (simp add: Buffer_toString_ascii)






text \<open>
  C4. A response with the default status 200 and version \<open>HTTP/1.1\<close>, after
  \<open>set('X-Test', '1')\<close>, \<open>status(200)\<close> and \<open>send('hello')\<close>, has written the status
  line, the two headers in insertion order (\<open>X-Test\<close>, then the defaulted
  \<open>Content-Type\<close>), the blank line and the body: on the connection the bytes are
  \<open>HTTP/1.1 200 OK\r\nX-Test: 1\r\nContent-Type: text/html\r\n\r\nhello\<close>.
\<close>

theorem Response_serialization:
  "(case status 200 (set_header ''X-Test'' (JString ''1'') (Response [] None None)) of
      Inl e \<Rightarrow> None
    | Inr r \<Rightarrow> Some (sock (send (Text ''hello'') r), wire (sock (send (Text ''hello'') r))))
   = Some ([Write (''HTTP/1.1 200 OK'' @ CRLF),
            Write (''X-Test: 1'' @ CRLF @ ''Content-Type: text/html'' @ CRLF),
            Write CRLF, Write ''hello'', End],
           ''HTTP/1.1 200 OK'' @ CRLF @ ''X-Test: 1'' @ CRLF @ ''Content-Type: text/html''
           @ CRLF @ CRLF @ ''hello'')"
  by (simp add: status_def sock_send Let_def statusLineToString_def headersToString_def default_content_type_def
       set_header_def set_prop_def Response_def has_prop_def get_prop_def Object_prototype_def
       is_array_index_def HTTP_STATUS_CODES_def digit_char_def CRLF_def)

text \<open>
  C9. \<open>send\<close> leaves the status code, the version, the body field and the \<open>status\<close>
  property as they are, and every header set before keeps its value. The headers change
  only when no \<open>Content-Type\<close> was set: then \<open>Content-Type: text/html\<close> is added at
  the end. The socket receives the writes and the end of the connection.
\<close>

theorem send_frame:
  "statusCode (send b res) = statusCode res
   \<and> version (send b res) = version res
   \<and> body (send b res) = body res
   \<and> status_prop (send b res) = status_prop res
   \<and> headers (send b res) =
       (if ''Content-Type'' \<in> fst ` set (headers res) then headers res
        else headers res @ [(''Content-Type'', JString ''text/html'')])
   \<and> (\<forall>k v. map_of (headers res) k = Some v \<longrightarrow> map_of (headers (send b res)) k = Some v)
   \<and> (\<exists>ws. sock (send b res) = sock res @ map Write ws @ [End])"
proof -
  have h: "headers (send b res) =
       (if ''Content-Type'' \<in> fst ` set (headers res) then headers res
        else headers res @ [(''Content-Type'', JString ''text/html'')])"
    by (simp add: send_fields headers_default_content_type has_prop_Content_Type)
  have k: "\<forall>k v. map_of (headers res) k = Some v \<longrightarrow> map_of (headers (send b res)) k = Some v"
    unfolding h by (auto simp: map_add_Some_iff)
  have "sock (send b res) = sock res @ map Write
          (if statusCode res = 301
           then [statusLineToString (default_content_type res) @ headersToString (default_content_type res) @ CRLF @ chunk_text b]
           else [statusLineToString (default_content_type res), headersToString (default_content_type res), CRLF, chunk_bytes b])
          @ [End]"
    by (simp add: sock_send Let_def)
  then have w: "\<exists>ws. sock (send b res) = sock res @ map Write ws @ [End]" by blast
  from h k w show ?thesis by (simp add: send_fields)
qed

theorem send_frame_witness:
  "map_of (headers (set_header ''X-Test'' (JString ''1'') (Response [] None None))) ''X-Test'' = Some (JString ''1'')
   \<and> map_of (headers (send (Text ''hello'') (set_header ''X-Test'' (JString ''1'') (Response [] None None)))) ''X-Test'' = Some (JString ''1'')
   \<and> headers (send (Text ''hello'') (set_header ''X-Test'' (JString ''1'') (Response [] None None)))
       = [(''X-Test'', JString ''1''), (''Content-Type'', JString ''text/html'')]
   \<and> statusCode (send (Text ''hello'') (set_header ''X-Test'' (JString ''1'') (Response [] None None))) = 200"
proof -
  have e: "headers (set_header ''X-Test'' (JString ''1'') (Response [] None None)) = [(''X-Test'', JString ''1'')]"
    by (simp add: set_header_def set_prop_def Response_def is_array_index_def)
  have c: "statusCode (set_header ''X-Test'' (JString ''1'') (Response [] None None)) = 200"
    by (simp add: set_header_def Response_def)
  show ?thesis
    using send_frame [of "Text ''hello''" "set_header ''X-Test'' (JString ''1'') (Response [] None None)"]
    unfolding e c by simp
qed


subsection \<open>Path normalization\<close>

lemmas url_eval_defs =
  normalizePath_def URL_pathname_def url_preprocess_def is_c0_or_space_def
  is_tab_or_newline_def is_authority_end_def is_slash_def js_string_def
  finish_segment_def is_single_dot_def is_double_dot_def percent_encode_def
  in_path_percent_encode_set_def serialize_path_def toLowerCase_def toLowerChar_def
  endsWith_def digit_char_def

lemma toLowerChar_idem: "toLowerChar (toLowerChar c) = toLowerChar c"
  by (auto simp: toLowerChar_def)

lemma toLowerCase_idem: "toLowerCase (toLowerCase s) = toLowerCase s"
  by (simp add: toLowerCase_def toLowerChar_idem)

lemma toLowerChar_slash: "toLowerChar (CHR ''/'') = CHR ''/''"
  by (simp add: toLowerChar_def)

lemma safe_char_toLowerChar: "safe_char c \<Longrightarrow> safe_char (toLowerChar c)"
  by (auto simp: safe_char_def toLowerChar_def in_path_percent_encode_set_def is_slash_def)

lemma is_c0_or_space_iff: "is_c0_or_space c \<longleftrightarrow> (of_char c :: nat) \<le> 0x1F \<or> c = CHR '' ''"
proof -
  have "(of_char c :: nat) = 32 \<longleftrightarrow> c = CHR '' ''"
    using of_char_eq_iff [of c "CHR '' ''", where ?'a = nat] by simp
  then show ?thesis unfolding is_c0_or_space_def by auto
qed

lemma safe_char_encode: "safe_char c \<Longrightarrow> percent_encode c = [c]"
  by (simp add: safe_char_def percent_encode_def)

lemma safe_char_not_slash: "safe_char c \<Longrightarrow> \<not> is_slash c"
  by (simp add: safe_char_def)

lemma safe_char_not_query: "safe_char c \<Longrightarrow> c \<noteq> CHR ''?'' \<and> c \<noteq> CHR ''#''"
  by (auto simp: safe_char_def in_path_percent_encode_set_def)

lemma is_tab_or_newline_c0: "is_tab_or_newline c \<Longrightarrow> (of_char c :: nat) \<le> 0x1F"
  unfolding is_tab_or_newline_def by (elim disjE) simp_all

lemma safe_char_not_newline: "safe_char c \<Longrightarrow> \<not> is_tab_or_newline c"
  using is_tab_or_newline_c0 [of c] by (auto simp: safe_char_def in_path_percent_encode_set_def)

lemma safe_char_not_space: "safe_char c \<Longrightarrow> \<not> is_c0_or_space c"
  unfolding is_c0_or_space_iff by (simp add: safe_char_def in_path_percent_encode_set_def)

lemma safe_char_not_authority_end: "safe_char c \<Longrightarrow> \<not> is_authority_end c"
  using safe_char_not_slash safe_char_not_query by (auto simp: is_authority_end_def)

lemma slash_facts:
  "\<not> is_tab_or_newline (CHR ''/'')" "\<not> is_c0_or_space (CHR ''/'')" "is_authority_end (CHR ''/'')"
  "is_slash (CHR ''/'')"
  by (simp_all add: is_tab_or_newline_def is_c0_or_space_def is_authority_end_def is_slash_def)

lemma hex_digits_safe: "list_all safe_char ''0123456789ABCDEF''"
  by (simp add: safe_char_def in_path_percent_encode_set_def is_slash_def)

lemma digit_char_safe: "d < 16 \<Longrightarrow> safe_char (digit_char d)"
  using hex_digits_safe unfolding digit_char_def list_all_length by simp

lemma of_char_div_16: "(of_char c :: nat) div 16 < 16"
proof -
  have "(of_char c :: nat) < 16 * 16" by simp
  then show ?thesis by (rule less_mult_imp_div_less)
qed

lemma of_char_mod_16: "(of_char c :: nat) mod 16 < 16"
  by simp

lemma percent_encode_safe: "\<not> is_slash c \<Longrightarrow> list_all safe_char (percent_encode c)"
proof (cases "in_path_percent_encode_set c")
  case True
  have "safe_char (CHR ''%'')"
    by (simp add: safe_char_def in_path_percent_encode_set_def is_slash_def)
  with True show ?thesis
    using digit_char_safe [OF of_char_div_16 [of c]] digit_char_safe [OF of_char_mod_16 [of c]]
    by (simp add: percent_encode_def)
next
  case False
  assume "\<not> is_slash c"
  with False show ?thesis by (simp add: percent_encode_def safe_char_def)
qed


lemma not_dot_Nil: "\<not> is_single_dot []" "\<not> is_double_dot []"
  by (simp_all add: is_single_dot_def is_double_dot_def toLowerCase_def)

lemma clean_segment_Nil: "clean_segment []"
  by (simp add: clean_segment_def not_dot_Nil)

lemma clean_segment_toLowerCase: "clean_segment seg \<Longrightarrow> clean_segment (toLowerCase seg)"
  unfolding clean_segment_def is_single_dot_def is_double_dot_def toLowerCase_idem
  by (simp add: toLowerCase_def list_all_iff safe_char_toLowerChar)

lemma list_all_butlast: "list_all P xs \<Longrightarrow> list_all P (butlast xs)"
  by (auto simp: list_all_iff dest: in_set_butlastD)

lemma finish_segment_clean:
  "list_all clean_segment segs \<Longrightarrow> list_all safe_char buf \<Longrightarrow>
   list_all clean_segment (finish_segment segs buf slash)"
  by (simp add: finish_segment_def not_dot_Nil list_all_butlast clean_segment_def)

lemma finish_segment_end_nonempty: "finish_segment segs buf False \<noteq> []"
  by (simp add: finish_segment_def)

lemma path_state_nonempty: "path_state segs buf cs \<noteq> []"
  by (induction cs arbitrary: segs buf) (simp_all add: finish_segment_end_nonempty)

lemma path_state_clean:
  "list_all clean_segment segs \<Longrightarrow> list_all safe_char buf \<Longrightarrow>
   list_all clean_segment (path_state segs buf cs)"
proof (induction cs arbitrary: segs buf)
  case Nil
  then show ?case by (simp add: finish_segment_clean)
next
  case (Cons c cs)
  show ?case
  proof (cases "is_slash c")
    case True
    with Cons show ?thesis by (simp add: finish_segment_clean)
  next
    case False
    with Cons show ?thesis by (simp add: finish_segment_clean percent_encode_safe)
  qed
qed

lemma path_start_state_clean:
  "list_all clean_segment (path_start_state cs) \<and> path_start_state cs \<noteq> []"
  by (cases cs) (simp_all del: path_state.simps add: path_state_clean path_state_nonempty)

text \<open>Parsing the serialization of clean segments gives the segments back.\<close>

lemma path_state_safe_prefix:
  "list_all safe_char s \<Longrightarrow> path_state segs buf (s @ r) = path_state segs (buf @ s) r"
proof (induction s arbitrary: buf)
  case Nil
  show ?case by simp
next
  case (Cons c s)
  then have c: "safe_char c" and s: "list_all safe_char s" by simp_all
  show ?case
    using Cons.IH [OF s, of "buf @ [c]"] safe_char_not_slash [OF c] safe_char_not_query [OF c]
    by (simp add: safe_char_encode [OF c])
qed

lemma serialize_path_Cons: "serialize_path (x # xs) = CHR ''/'' # x @ serialize_path xs"
  by (simp add: serialize_path_def)

lemma serialize_path_snoc: "serialize_path (xs @ [x]) = serialize_path xs @ CHR ''/'' # x"
  by (simp add: serialize_path_def)

lemma path_state_serialize:
  "list_all clean_segment (x # xs) \<Longrightarrow>
   path_state acc [] (x @ serialize_path xs) = acc @ x # xs"
proof (induction xs arbitrary: x acc)
  case Nil
  then have "list_all safe_char x" and "\<not> is_single_dot x" and "\<not> is_double_dot x"
    by (simp_all add: clean_segment_def)
  then show ?case
    using path_state_safe_prefix [of x acc "[]" "[]"]
    by (simp add: serialize_path_def finish_segment_def)
next
  case (Cons y ys)
  from Cons.prems have cx: "clean_segment x" and rest: "list_all clean_segment (y # ys)"
    by simp_all
  from cx have x: "list_all safe_char x" "\<not> is_single_dot x" "\<not> is_double_dot x"
    by (simp_all add: clean_segment_def)
  have "path_state acc [] (x @ serialize_path (y # ys))
          = path_state acc x (CHR ''/'' # y @ serialize_path ys)"
    using path_state_safe_prefix [OF x(1), of acc "[]"] by (simp add: serialize_path_Cons)
  also have "\<dots> = path_state (acc @ [x]) [] (y @ serialize_path ys)"
    using x by (simp add: slash_facts finish_segment_def)
  also have "\<dots> = (acc @ [x]) @ y # ys"
    by (rule Cons.IH [OF rest])
  finally show ?case by simp
qed

lemma path_start_state_serialize:
  "xs \<noteq> [] \<Longrightarrow> list_all clean_segment xs \<Longrightarrow> path_start_state (serialize_path xs) = xs"
proof (cases xs)
  case Nil
  assume "xs \<noteq> []"
  with Nil show ?thesis by simp
next
  case (Cons x xs')
  assume "list_all clean_segment xs"
  with Cons show ?thesis
    using path_state_serialize [of x xs' "[]"]
    by (simp add: serialize_path_Cons slash_facts)
qed


lemma toLowerCase_serialize_path:
  "toLowerCase (serialize_path xs) = serialize_path (map toLowerCase xs)"
  by (induction xs) (simp_all add: serialize_path_def toLowerCase_def toLowerChar_slash)

lemma serialize_path_chars:
  "list_all clean_segment xs \<Longrightarrow> list_all (\<lambda>c. c = CHR ''/'' \<or> safe_char c) (serialize_path xs)"
  by (induction xs) (auto simp: serialize_path_def clean_segment_def list_all_iff)

lemma url_preprocess_clean:
  assumes "list_all (\<lambda>c. c = CHR ''/'' \<or> safe_char c) q"
  shows "url_preprocess q = q"
proof -
  have a: "\<forall>c\<in>set q. \<not> is_c0_or_space c \<and> \<not> is_tab_or_newline c"
  proof
    fix c assume "c \<in> set q"
    with assms have "c = CHR ''/'' \<or> safe_char c" by (simp add: list_all_iff)
    then show "\<not> is_c0_or_space c \<and> \<not> is_tab_or_newline c"
    proof
      assume "c = CHR ''/''"
      then show ?thesis by (simp add: slash_facts)
    next
      assume "safe_char c"
      then show ?thesis by (simp add: safe_char_not_space safe_char_not_newline)
    qed
  qed
  have "dropWhile is_c0_or_space (rev q) = rev q"
  proof (cases "rev q")
    case Nil
    then show ?thesis by simp
  next
    case (Cons c cs)
    then have "c \<in> set q" by (metis list.set_intros(1) set_rev)
    with a Cons show ?thesis by simp
  qed
  moreover have "filter (\<lambda>c. \<not> is_tab_or_newline c) q = q"
    using a by (simp add: filter_id_conv)
  ultimately show ?thesis by (simp add: url_preprocess_def)
qed

lemma URL_pathname_serialize:
  assumes "xs \<noteq> []" and "list_all clean_segment xs"
  shows "URL_pathname hostOK (serialize_path xs) = Inr (serialize_path xs)"
proof -
  obtain x xs' where xs: "xs = x # xs'" using assms(1) by (cases xs) auto
  have p: "url_preprocess (serialize_path xs) = serialize_path xs"
    by (rule url_preprocess_clean [OF serialize_path_chars [OF assms(2)]])
  have t: "takeWhile (\<lambda>c. \<not> is_authority_end c) (serialize_path xs) = []"
    and d: "dropWhile (\<lambda>c. \<not> is_authority_end c) (serialize_path xs) = serialize_path xs"
    by (simp_all add: xs serialize_path_Cons slash_facts)
  show ?thesis
    by (simp add: URL_pathname_def p t d path_start_state_serialize [OF assms])
qed

lemma serialize_path_eq_Nil: "serialize_path xs = [] \<longleftrightarrow> xs = []"
  by (cases xs) (simp_all add: serialize_path_def)

lemma normalizePath_empty: "normalizePath hostOK (Some []) = Inr []"
  by (simp add: normalizePath_def URL_pathname_def url_preprocess_def js_string_def
        finish_segment_def not_dot_Nil serialize_path_def toLowerCase_def toLowerChar_def
        endsWith_def)

lemma normalizePath_serialize:
  assumes "list_all clean_segment xs" and "map toLowerCase xs = xs"
  shows "normalizePath hostOK (Some (serialize_path xs))
           = Inr (if endsWith (serialize_path xs) (CHR ''/'') then butlast (serialize_path xs)
                  else serialize_path xs)"
proof (cases "xs = []")
  case True
  then show ?thesis by (simp add: serialize_path_def normalizePath_empty endsWith_def)
next
  case False
  have l: "toLowerCase (serialize_path xs) = serialize_path xs"
    by (simp add: toLowerCase_serialize_path assms(2))
  show ?thesis
    by (simp add: normalizePath_def js_string_def URL_pathname_serialize [OF False assms(1)] l)
qed

lemma clean_segment_not_slash_end: "clean_segment z \<Longrightarrow> z \<noteq> [] \<Longrightarrow> last z \<noteq> CHR ''/''"
proof -
  assume c: "clean_segment z" and n: "z \<noteq> []"
  then have "safe_char (last z)" by (simp add: clean_segment_def list_all_iff)
  then show ?thesis using safe_char_not_slash [of "last z"] by (auto simp: is_slash_def)
qed

lemma URL_pathname_Inr:
  "URL_pathname hostOK s = Inr pn \<Longrightarrow>
   pn = serialize_path (path_start_state
          (dropWhile (\<lambda>c. \<not> is_authority_end c) (url_preprocess s)))"
  by (auto simp: URL_pathname_def Let_def split: if_splits)

lemma normalizePath_Inr:
  "normalizePath hostOK p = Inr q \<Longrightarrow>
   \<exists>pn. URL_pathname hostOK (js_string p) = Inr pn
      \<and> q = (if endsWith (toLowerCase pn) (CHR ''/'') then butlast (toLowerCase pn)
               else toLowerCase pn)"
  by (auto simp: normalizePath_def Let_def split: sum.splits)

lemma normalizePath_result:
  assumes "normalizePath hostOK p = Inr q"
  shows "\<exists>xs. list_all clean_segment xs \<and> map toLowerCase xs = xs \<and> q = serialize_path xs"
proof -
  define segs where
    "segs = path_start_state (dropWhile (\<lambda>c. \<not> is_authority_end c) (url_preprocess (js_string p)))"
  have segs: "list_all clean_segment segs" "segs \<noteq> []"
    using path_start_state_clean unfolding segs_def by simp_all
  obtain pn where pn: "URL_pathname hostOK (js_string p) = Inr pn"
    and q0: "q = (if endsWith (toLowerCase pn) (CHR ''/'') then butlast (toLowerCase pn)
                  else toLowerCase pn)"
    using normalizePath_Inr [OF assms] by blast
  have "pn = serialize_path segs"
    using URL_pathname_Inr [OF pn] by (simp add: segs_def)
  with q0 have q: "q = (let p' = toLowerCase (serialize_path segs)
                 in if endsWith p' (CHR ''/'') then butlast p' else p')"
    by (simp add: Let_def)
  define ys where "ys = map toLowerCase segs"
  have ys: "list_all clean_segment ys" "map toLowerCase ys = ys" "ys \<noteq> []"
    using segs by (simp_all add: ys_def list_all_iff clean_segment_toLowerCase toLowerCase_idem)
  have q': "q = (if endsWith (serialize_path ys) (CHR ''/'') then butlast (serialize_path ys)
                 else serialize_path ys)"
    using q by (simp add: Let_def toLowerCase_serialize_path ys_def)
  show ?thesis
  proof (cases "endsWith (serialize_path ys) (CHR ''/'')")
    case False
    with q' ys show ?thesis by auto
  next
    case True
    obtain zs z where zs: "ys = zs @ [z]"
      using ys(3) by (metis rev_exhaust)
    have cz: "clean_segment z" and czs: "list_all clean_segment zs"
      using ys(1) by (simp_all add: zs)
    have "z = []"
    proof (rule ccontr)
      assume "z \<noteq> []"
      with True clean_segment_not_slash_end [OF cz] show False
        by (simp add: zs serialize_path_snoc endsWith_def)
    qed
    then have "q = serialize_path zs"
      using q' True by (simp add: zs serialize_path_snoc butlast_append)
    moreover have "map toLowerCase zs = zs" using ys(2) by (simp add: zs)
    ultimately show ?thesis using czs by blast
  qed
qed

text \<open>
  C7, as the code has it. Where \<open>normalizePath\<close> returns a path, applying it to that
  path again removes one more trailing slash when there is one and changes nothing
  else; so on every path whose normalized form does not end in a slash,
  \<open>normalizePath (normalizePath p) = normalizePath p\<close>.
\<close>

theorem normalizePath_twice:
  assumes "normalizePath hostOK p = Inr q"
  shows "normalizePath hostOK (Some q) = Inr (if endsWith q (CHR ''/'') then butlast q else q)
       \<and> (\<not> endsWith q (CHR ''/'') \<longrightarrow> normalizePath hostOK (Some q) = Inr q)"
proof -
  obtain xs where "list_all clean_segment xs" "map toLowerCase xs = xs" "q = serialize_path xs"
    using normalizePath_result [OF assms] by blast
  then show ?thesis using normalizePath_serialize [of xs hostOK] by simp
qed

text \<open>The example of the specification: \<open>/Gallery/\<close>, then \<open>/gallery\<close> again.\<close>

theorem normalizePath_twice_witness:
  "normalizePath strict_host (Some ''/Gallery/'') = Inr ''/gallery''
   \<and> \<not> endsWith ''/gallery'' (CHR ''/'')
   \<and> normalizePath strict_host (Some ''/gallery'') = Inr ''/gallery''"
proof -
  have h: "normalizePath strict_host (Some ''/Gallery/'') = Inr ''/gallery''"
    by (simp add: url_eval_defs)
  have e: "\<not> endsWith ''/gallery'' (CHR ''/'')"
    by (simp add: endsWith_def)
  from normalizePath_twice [OF h] h e show ?thesis by blast
qed

text \<open>
  C7 as stated fails: only one trailing slash is removed. \<open>//\<close> normalizes to \<open>/\<close>,
  and \<open>/\<close> normalizes to the empty path.
\<close>

theorem normalizePath_not_idempotent:
  "normalizePath strict_host (Some ''//'') = Inr ''/''
   \<and> normalizePath strict_host (Some ''/'') = Inr []
   \<and> normalizePath strict_host (Some ''/'') \<noteq> normalizePath strict_host (Some ''//'')"
  by (simp add: url_eval_defs)


subsection \<open>Routes and dispatch\<close>

lemma normalizePath_root: "normalizePath hostOK (Some ''/'') = Inr []"
  by (simp add: url_eval_defs)

lemma normalizePath_Foo: "normalizePath hostOK (Some ''/Foo'') = Inr ''/foo''"
  by (simp add: url_eval_defs)

lemma normalizePath_foo_slash: "normalizePath hostOK (Some ''/foo/'') = Inr ''/foo''"
  by (simp add: url_eval_defs)

lemma normalizePath_missing: "normalizePath hostOK (Some ''/missing'') = Inr ''/missing''"
  by (simp add: url_eval_defs)

lemma toUpperCase_GET: "toUpperCase ''GET'' = ''GET''"
  by (simp add: toUpperCase_def toUpperChar_def)

lemma createRouteKey_GET:
  "normalizePath hostOK (Some p) = Inr n \<Longrightarrow>
   createRouteKey hostOK (Some ''GET'') (Some p) = Inr (''GET '' @ n)"
  by (simp add: createRouteKey_def toUpperCase_GET)

lemma createRouteKey_request:
  "toUpperCase m = ''GET'' \<Longrightarrow> normalizePath hostOK rp = Inr n \<Longrightarrow>
   createRouteKey hostOK (Some m) rp = Inr (''GET '' @ n)"
  by (simp add: createRouteKey_def)

lemma get_registers:
  "normalizePath hostOK (Some p) = Inr n \<Longrightarrow>
   get hostOK p h a = Inr (a\<lparr>routes := (routes a)(''GET '' @ n \<mapsto> h)\<rparr>)"
  by (simp add: get_def createRouteKey_GET)

lemma get_Inr_normalizePath:
  "get hostOK p h a = Inr a' \<Longrightarrow> \<exists>n. normalizePath hostOK (Some p) = Inr n"
  by (auto simp: get_def createRouteKey_def split: sum.splits)

lemma processRoutes_hit:
  "createRouteKey hostOK (method req) (path req) = Inr key \<Longrightarrow> routes a key = Some h \<Longrightarrow>
   processRoutes hostOK a req res = h req res"
  by (simp add: processRoutes_def)

lemma processRoutes_miss:
  "createRouteKey hostOK (method req) (path req) = Inr key \<Longrightarrow> routes a key = None \<Longrightarrow>
   processRoutes hostOK a req res = Inr (send (Text ''Page not found'') (res\<lparr>status_prop := Some 404\<rparr>))"
  by (simp add: processRoutes_def)

lemmas response_eval_defs =
  sock_send Let_def statusLineToString_def headersToString_def default_content_type_def
  set_header_def set_prop_def Response_def has_prop_def get_prop_def Object_prototype_def
  is_array_index_def HTTP_STATUS_CODES_def digit_char_def CRLF_def send_fields

lemma get_routes_other:
  assumes "get hostOK p' h' a = Inr a'" and "normalizePath hostOK (Some p') \<noteq> Inr n"
  shows "routes a' (''GET '' @ n) = routes a (''GET '' @ n)"
proof -
  obtain n' where n': "normalizePath hostOK (Some p') = Inr n'"
    using get_Inr_normalizePath [OF assms(1)] by blast
  with assms(2) have "n' \<noteq> n" by simp
  moreover have "a' = a\<lparr>routes := (routes a)(''GET '' @ n' \<mapsto> h')\<rparr>"
    using assms(1) get_registers [OF n', of h' a] by simp
  ultimately show ?thesis by simp
qed

lemma get_all_routes_other:
  "get_all hostOK calls a = Inr a' \<Longrightarrow>
   list_all (\<lambda>(p', h'). normalizePath hostOK (Some p') \<noteq> Inr n) calls \<Longrightarrow>
   routes a' (''GET '' @ n) = routes a (''GET '' @ n)"
proof (induction calls arbitrary: a)
  case Nil
  then show ?case by simp
next
  case (Cons call calls)
  obtain p' h' where call: "call = (p', h')" by (cases call)
  from Cons.prems(1) obtain a1 where a1: "get hostOK p' h' a = Inr a1"
    and rest: "get_all hostOK calls a1 = Inr a'"
    by (auto simp: call split: sum.splits)
  from Cons.prems(2) have ne: "normalizePath hostOK (Some p') \<noteq> Inr n"
    and others: "list_all (\<lambda>(p', h'). normalizePath hostOK (Some p') \<noteq> Inr n) calls"
    by (simp_all add: call)
  have "routes a' (''GET '' @ n) = routes a1 (''GET '' @ n)"
    by (rule Cons.IH [OF rest others])
  also have "\<dots> = routes a (''GET '' @ n)"
    by (rule get_routes_other [OF a1 ne])
  finally show ?case .
qed

text \<open>
  C2, as the code has it. After \<open>get(p, h)\<close> has registered \<open>h\<close>, and after any later
  calls of \<open>get\<close> for paths that normalize differently from \<open>p\<close>, a request whose method
  is \<open>GET\<close> once uppercased and whose path normalizes as \<open>p\<close> does makes \<open>processRoutes\<close>
  call \<open>h\<close> with the request and the response.
\<close>

theorem registered_get_handler_invoked:
  assumes "get hostOK p h a = Inr a1"
    and "get_all hostOK later a1 = Inr a2"
    and "list_all (\<lambda>(p', h'). normalizePath hostOK (Some p') \<noteq> normalizePath hostOK (Some p)) later"
    and "method req = Some m" and "toUpperCase m = ''GET''"
    and "normalizePath hostOK (path req) = normalizePath hostOK (Some p)"
  shows "processRoutes hostOK a2 req res = h req res"
proof -
  obtain n where n: "normalizePath hostOK (Some p) = Inr n"
    using get_Inr_normalizePath [OF assms(1)] by blast
  have a1: "a1 = a\<lparr>routes := (routes a)(''GET '' @ n \<mapsto> h)\<rparr>"
    using assms(1) get_registers [OF n, of h a] by simp
  have "routes a2 (''GET '' @ n) = routes a1 (''GET '' @ n)"
    using get_all_routes_other [OF assms(2)] assms(3) by (simp add: n)
  then have r: "routes a2 (''GET '' @ n) = Some h"
    by (simp add: a1)
  have key: "createRouteKey hostOK (method req) (path req) = Inr (''GET '' @ n)"
    using assms(4,5,6) n by (simp add: createRouteKey_request)
  show ?thesis
    by (rule processRoutes_hit [OF key r])
qed

lemma Request_get_animal:
  "Request ''get /IMG/animal1.jpg/?x=1 HTTP/1.1''
     = \<lparr>method = Some ''get'', path = Some ''/IMG/animal1.jpg/?x=1'', others = [''HTTP/1.1'']\<rparr>"
  by (simp add: Request_def element_def)

lemma normalizePath_animal:
  "normalizePath hostOK (Some ''/img/animal1.jpg'') = Inr ''/img/animal1.jpg''"
  "normalizePath hostOK (Some ''/IMG/animal1.jpg/?x=1'') = Inr ''/img/animal1.jpg''"
  by (simp_all add: url_eval_defs)

lemma normalizePath_styles:
  "normalizePath hostOK (Some ''/css/styles.css'') = Inr ''/css/styles.css''"
  by (simp add: url_eval_defs)

text \<open>
  Two registrations of \<open>app.js\<close>, then a request for the first in another spelling.
\<close>

theorem registered_get_handler_invoked_witness:
  "get strict_host ''/img/animal1.jpg'' animal1_handler App
     = Inr (App\<lparr>routes := (routes App)(''GET /img/animal1.jpg'' \<mapsto> animal1_handler)\<rparr>)
   \<and> get_all strict_host [(''/css/styles.css'', styles_handler)]
        (App\<lparr>routes := (routes App)(''GET /img/animal1.jpg'' \<mapsto> animal1_handler)\<rparr>)
     = Inr (App\<lparr>routes := (routes App)(''GET /img/animal1.jpg'' \<mapsto> animal1_handler,
                                        ''GET /css/styles.css'' \<mapsto> styles_handler)\<rparr>)
   \<and> list_all (\<lambda>(p', h'). normalizePath strict_host (Some p')
                    \<noteq> normalizePath strict_host (Some ''/img/animal1.jpg''))
        [(''/css/styles.css'', styles_handler)]
   \<and> method (Request ''get /IMG/animal1.jpg/?x=1 HTTP/1.1'') = Some ''get''
   \<and> toUpperCase ''get'' = ''GET''
   \<and> normalizePath strict_host (path (Request ''get /IMG/animal1.jpg/?x=1 HTTP/1.1''))
       = normalizePath strict_host (Some ''/img/animal1.jpg'')
   \<and> processRoutes strict_host
        (App\<lparr>routes := (routes App)(''GET /img/animal1.jpg'' \<mapsto> animal1_handler,
                                   ''GET /css/styles.css'' \<mapsto> styles_handler)\<rparr>)
        (Request ''get /IMG/animal1.jpg/?x=1 HTTP/1.1'') (Response [] None None)
       = animal1_handler (Request ''get /IMG/animal1.jpg/?x=1 HTTP/1.1'') (Response [] None None)"
proof -
  have g: "get strict_host ''/img/animal1.jpg'' animal1_handler App
     = Inr (App\<lparr>routes := (routes App)(''GET /img/animal1.jpg'' \<mapsto> animal1_handler)\<rparr>)"
    using get_registers [OF normalizePath_animal(1)] by simp
  have l: "get_all strict_host [(''/css/styles.css'', styles_handler)]
        (App\<lparr>routes := (routes App)(''GET /img/animal1.jpg'' \<mapsto> animal1_handler)\<rparr>)
     = Inr (App\<lparr>routes := (routes App)(''GET /img/animal1.jpg'' \<mapsto> animal1_handler,
                                        ''GET /css/styles.css'' \<mapsto> styles_handler)\<rparr>)"
    using get_registers [OF normalizePath_styles] by simp
  have d: "list_all (\<lambda>(p', h'). normalizePath strict_host (Some p')
                    \<noteq> normalizePath strict_host (Some ''/img/animal1.jpg''))
        [(''/css/styles.css'', styles_handler)]"
    by (simp add: normalizePath_styles normalizePath_animal)
  have m: "method (Request ''get /IMG/animal1.jpg/?x=1 HTTP/1.1'') = Some ''get''"
    by (simp add: Request_get_animal)
  have u: "toUpperCase ''get'' = ''GET''"
    by (simp add: toUpperCase_def toUpperChar_def)
  have n: "normalizePath strict_host (path (Request ''get /IMG/animal1.jpg/?x=1 HTTP/1.1''))
       = normalizePath strict_host (Some ''/img/animal1.jpg'')"
    by (simp add: Request_get_animal normalizePath_animal)
  from registered_get_handler_invoked [OF g l d m u n] g l d m u n show ?thesis by blast
qed

lemma Request_GET_Foo:
  "Request ''GET /Foo HTTP/1.1''
     = \<lparr>method = Some ''GET'', path = Some ''/Foo'', others = [''HTTP/1.1'']\<rparr>"
  by (simp add: Request_def element_def)

text \<open>
  C2 as stated, for every registered handler, fails for a handler that a later
  registration has replaced: after \<open>get('/Foo', ...)\<close> and \<open>get('/foo/', ...)\<close>, a GET
  request for \<open>/Foo\<close> runs the second handler, not the one registered for \<open>/Foo\<close>.
\<close>

theorem replaced_handler_counterexample:
  "get_all strict_host [(''/Foo'', animal1_handler), (''/foo/'', styles_handler)] App
     = Inr (App\<lparr>routes := (routes App)(''GET /foo'' \<mapsto> styles_handler)\<rparr>)
   \<and> method (Request ''GET /Foo HTTP/1.1'') = Some ''GET''
   \<and> normalizePath strict_host (path (Request ''GET /Foo HTTP/1.1''))
       = normalizePath strict_host (Some ''/Foo'')
   \<and> map_sum id sock
        (processRoutes strict_host (App\<lparr>routes := (routes App)(''GET /foo'' \<mapsto> styles_handler)\<rparr>)
           (Request ''GET /Foo HTTP/1.1'') (Response [] None None))
       = Inr [Write (''HTTP/1.1 200 OK'' @ CRLF), Write (''Content-Type: text/html'' @ CRLF),
              Write CRLF, Write ''/css/styles.css'', End]
   \<and> map_sum id sock
        (animal1_handler (Request ''GET /Foo HTTP/1.1'') (Response [] None None))
       = Inr [Write (''HTTP/1.1 200 OK'' @ CRLF), Write (''Content-Type: text/html'' @ CRLF),
              Write CRLF, Write ''animal1.jpg'', End]"
proof -
  have g: "get_all strict_host [(''/Foo'', animal1_handler), (''/foo/'', styles_handler)] App
     = Inr (App\<lparr>routes := (routes App)(''GET /foo'' \<mapsto> styles_handler)\<rparr>)"
    using get_registers [OF normalizePath_Foo] get_registers [OF normalizePath_foo_slash]
    by simp
  have m: "method (Request ''GET /Foo HTTP/1.1'') = Some ''GET''"
    by (simp add: Request_GET_Foo)
  have n: "normalizePath strict_host (path (Request ''GET /Foo HTTP/1.1''))
       = normalizePath strict_host (Some ''/Foo'')"
    by (simp add: Request_GET_Foo)
  have k: "createRouteKey strict_host (method (Request ''GET /Foo HTTP/1.1''))
             (path (Request ''GET /Foo HTTP/1.1'')) = Inr ''GET /foo''"
    using createRouteKey_GET [OF normalizePath_Foo] by (simp add: Request_GET_Foo)
  have p: "processRoutes strict_host (App\<lparr>routes := (routes App)(''GET /foo'' \<mapsto> styles_handler)\<rparr>)
           (Request ''GET /Foo HTTP/1.1'') (Response [] None None)
         = styles_handler (Request ''GET /Foo HTTP/1.1'') (Response [] None None)"
    by (rule processRoutes_hit [OF k]) simp
  have s: "map_sum id sock (styles_handler (Request ''GET /Foo HTTP/1.1'') (Response [] None None))
       = Inr [Write (''HTTP/1.1 200 OK'' @ CRLF), Write (''Content-Type: text/html'' @ CRLF),
              Write CRLF, Write ''/css/styles.css'', End]"
    by (simp add: styles_handler_def response_eval_defs)
  have a: "map_sum id sock (animal1_handler (Request ''GET /Foo HTTP/1.1'') (Response [] None None))
       = Inr [Write (''HTTP/1.1 200 OK'' @ CRLF), Write (''Content-Type: text/html'' @ CRLF),
              Write CRLF, Write ''animal1.jpg'', End]"
    by (simp add: animal1_handler_def response_eval_defs)
  from g m n s a show ?thesis unfolding p by blast
qed


text \<open>
  C6. Two paths with the same normalized form give the same route key, and registering
  a GET handler for the first and then for the second leaves the table that registering
  the second alone gives: the key holds the second handler, the first is not reachable.
\<close>

theorem colliding_registrations:
  assumes "normalizePath hostOK (Some p1) = Inr n" and "normalizePath hostOK (Some p2) = Inr n"
  shows "createRouteKey hostOK (Some ''GET'') (Some p1) = Inr (''GET '' @ n)
       \<and> createRouteKey hostOK (Some ''GET'') (Some p2) = Inr (''GET '' @ n)
       \<and> (case get hostOK p1 h1 a of Inl e \<Rightarrow> Inl e | Inr a1 \<Rightarrow> get hostOK p2 h2 a1)
           = Inr (a\<lparr>routes := (routes a)(''GET '' @ n \<mapsto> h2)\<rparr>)
       \<and> get hostOK p2 h2 a = Inr (a\<lparr>routes := (routes a)(''GET '' @ n \<mapsto> h2)\<rparr>)"
  using assms by (simp add: createRouteKey_GET get_registers)

theorem colliding_registrations_witness:
  "normalizePath strict_host (Some ''/Foo'') = Inr ''/foo''
   \<and> normalizePath strict_host (Some ''/foo/'') = Inr ''/foo''
   \<and> createRouteKey strict_host (Some ''GET'') (Some ''/Foo'') = Inr ''GET /foo''
   \<and> createRouteKey strict_host (Some ''GET'') (Some ''/foo/'') = Inr ''GET /foo''
   \<and> (case get strict_host ''/Foo'' animal1_handler App of
         Inl e \<Rightarrow> Inl e | Inr a1 \<Rightarrow> get strict_host ''/foo/'' styles_handler a1)
       = Inr (App\<lparr>routes := (routes App)(''GET /foo'' \<mapsto> styles_handler)\<rparr>)"
  using colliding_registrations [OF normalizePath_Foo normalizePath_foo_slash,
          where hostOK = strict_host and ?h1.0 = animal1_handler and a = App
            and ?h2.0 = styles_handler]
  by (simp add: normalizePath_Foo normalizePath_foo_slash)

text \<open>
  C10. The root path \<open>/\<close> normalizes to the empty string, its GET route key is \<open>GET\<close>
  followed by a space and nothing else, and a handler registered for \<open>/\<close> is the one
  that a GET request for \<open>/\<close> reaches.
\<close>

theorem root_route:
  "normalizePath hostOK (Some ''/'') = Inr []
   \<and> createRouteKey hostOK (Some ''GET'') (Some ''/'') = Inr ''GET ''
   \<and> (case get hostOK ''/'' h a of
         Inl e \<Rightarrow> Inl e
       | Inr a' \<Rightarrow> processRoutes hostOK a' \<lparr>method = Some ''GET'', path = Some ''/'', others = os\<rparr> res)
       = h \<lparr>method = Some ''GET'', path = Some ''/'', others = os\<rparr> res"
proof -
  have k: "createRouteKey hostOK (Some ''GET'') (Some ''/'') = Inr ''GET ''"
    using createRouteKey_GET [OF normalizePath_root] by simp
  have g: "get hostOK ''/'' h a = Inr (a\<lparr>routes := (routes a)(''GET '' \<mapsto> h)\<rparr>)"
    using get_registers [OF normalizePath_root] by simp
  have d: "processRoutes hostOK (a\<lparr>routes := (routes a)(''GET '' \<mapsto> h)\<rparr>)
             \<lparr>method = Some ''GET'', path = Some ''/'', others = os\<rparr> res
           = h \<lparr>method = Some ''GET'', path = Some ''/'', others = os\<rparr> res"
    by (rule processRoutes_hit [where key = "''GET ''"]) (simp_all add: k)
  from k g d show ?thesis by (simp add: normalizePath_root)
qed

lemma Request_missing:
  "Request ''GET /missing HTTP/1.1''
     = \<lparr>method = Some ''GET'', path = Some ''/missing'', others = [''HTTP/1.1'']\<rparr>"
  by (simp add: Request_def element_def)

text \<open>A miss keeps the status code of the response: only the property \<open>status\<close> is set.\<close>

lemma processRoutes_miss_statusCode:
  assumes "createRouteKey hostOK (method req) (path req) = Inr key" and "routes a key = None"
  shows "\<exists>r. processRoutes hostOK a req res = Inr r \<and> statusCode r = statusCode res
            \<and> status_prop r = Some 404"
  using processRoutes_miss [OF assms] by (simp add: send_fields)

text \<open>
  C1. On a miss the code assigns 404 to the property \<open>status\<close> of the response, which
  replaces the method \<open>status\<close> and leaves \<open>statusCode\<close> at 200: the response sent for
  an unregistered route has the body \<open>Page not found\<close> and the status line
  \<open>HTTP/1.1 200 OK\<close>.
\<close>

theorem processRoutes_miss_sends_200:
  "map_sum id (\<lambda>r. (statusCode r, status_prop r, sock r))
     (processRoutes hostOK App (Request ''GET /missing HTTP/1.1'') (Response [] None None))
   = Inr (200, Some 404,
          [Write (''HTTP/1.1 200 OK'' @ CRLF), Write (''Content-Type: text/html'' @ CRLF),
           Write CRLF, Write ''Page not found'', End])"
proof -
  have k: "createRouteKey hostOK (method (Request ''GET /missing HTTP/1.1''))
             (path (Request ''GET /missing HTTP/1.1'')) = Inr ''GET /missing''"
    using createRouteKey_GET [OF normalizePath_missing] by (simp add: Request_missing)
  have r: "routes App ''GET /missing'' = None"
    by (simp add: App_def)
  show ?thesis
    unfolding processRoutes_miss [OF k r]
    by (simp add: response_eval_defs)
qed

subsection \<open>The static-file middleware and the MIME table\<close>

lemma getExtension_lowercase: "toLowerCase (getExtension f) = getExtension f"
  by (simp add: getExtension_def toLowerCase_def drop_map toLowerChar_idem)

lemma lowercase_key: "toLowerCase ext = ext \<Longrightarrow> toLowerCase k \<noteq> k \<Longrightarrow> ext \<noteq> k"
  by auto

lemma inherited_lowercase:
  assumes "toLowerCase ext = ext"
  shows "map_of Object_prototype ext =
           (if ext = ''constructor'' then Some (JFunction ''Object'')
            else if ext = ''__proto__'' then Some JObjectPrototype else None)"
proof -
  note k = lowercase_key [OF assms]
  have "ext \<noteq> ''__defineGetter__''" "ext \<noteq> ''__defineSetter__''" "ext \<noteq> ''hasOwnProperty''"
    "ext \<noteq> ''__lookupGetter__''" "ext \<noteq> ''__lookupSetter__''" "ext \<noteq> ''isPrototypeOf''"
    "ext \<noteq> ''propertyIsEnumerable''" "ext \<noteq> ''toString''" "ext \<noteq> ''valueOf''"
    "ext \<noteq> ''toLocaleString''"
    by (rule k, simp add: toLowerCase_def toLowerChar_def)+
  then show ?thesis by (simp add: Object_prototype_def)
qed

lemma MIME_TYPES_truthy: "map_of MIME_TYPES ext = Some v \<Longrightarrow> truthy v"
  by (auto simp: MIME_TYPES_def split: if_splits)

text \<open>
  What \<open>getMIMEType\<close> returns: the entry of the table for the extension; the empty
  string for every other extension except the two lowercase names that an object
  inherits, \<open>constructor\<close> and \<open>__proto__\<close>.
\<close>

lemma getMIMEType_of_extension:
  "getMIMEType f =
     (case map_of MIME_TYPES (getExtension f) of
        Some v \<Rightarrow> v
      | None \<Rightarrow>
          (if getExtension f = ''constructor'' then JFunction ''Object''
           else if getExtension f = ''__proto__'' then JObjectPrototype
           else JString []))"
proof (cases "map_of MIME_TYPES (getExtension f)")
  case None
  then show ?thesis
    by (simp add: getMIMEType_def get_prop_def inherited_lowercase [OF getExtension_lowercase])
next
  case (Some v)
  then show ?thesis
    using MIME_TYPES_truthy [OF Some] by (simp add: getMIMEType_def get_prop_def)
qed

lemma serveStatic_missing_file_dispatches:
  "posix_join basePath (path req) = Inr filePath \<Longrightarrow> readFile filePath = None \<Longrightarrow>
   serveStatic readFile basePath req res (processRoutes hostOK a req) = processRoutes hostOK a req res"
  by (simp add: serveStatic_def)

lemma serveStatic_read_success:
  "posix_join basePath (path req) = Inr filePath \<Longrightarrow> readFile filePath = Some data \<Longrightarrow>
   serveStatic readFile basePath req res next
     = Inr (send (Buffer data) (set_header ''Content-Type'' (getMIMEType filePath) res))"
  by (simp add: serveStatic_def)

lemma serveStatic_read_failure:
  "posix_join basePath (path req) = Inr filePath \<Longrightarrow> readFile filePath = None \<Longrightarrow>
   serveStatic readFile basePath req res next = next res"
  by (simp add: serveStatic_def)

text \<open>
  Through \<open>handleRequest\<close>: without a middleware the request goes to the route table;
  with the static middleware, a file that cannot be read sends it there as well.
\<close>

lemma handleRequest_without_middleware:
  "middleware a = None \<Longrightarrow>
   handleRequest hostOK a s d
     = processRoutes hostOK a (Request (Buffer_toString d)) (Response s None None)"
  by (simp add: handleRequest_def)

lemma handleRequest_static_read_failure:
  "posix_join basePath (path (Request (Buffer_toString d))) = Inr filePath \<Longrightarrow>
   readFile filePath = None \<Longrightarrow>
   handleRequest hostOK (use (serveStatic readFile basePath) a) s d
     = processRoutes hostOK (use (serveStatic readFile basePath) a)
         (Request (Buffer_toString d)) (Response s None None)"
  by (simp add: handleRequest_def use_def serveStatic_def)

lemma Request_constructor_file:
  "Request ''GET /x.constructor HTTP/1.1''
     = \<lparr>method = Some ''GET'', path = Some ''/x.constructor'', others = [''HTTP/1.1'']\<rparr>"
  by (simp add: Request_def element_def)

lemma posix_join_constructor_file:
  "posix_join ''public'' (Some ''/x.constructor'') = Inr ''public/x.constructor''"
  by (simp add: posix_join_def posix_normalize_def)

lemma getMIMEType_constructor_file:
  "getMIMEType ''public/x.constructor'' = JFunction ''Object''"
  by (simp add: getMIMEType_def getExtension_def extname_def get_prop_def MIME_TYPES_def
        Object_prototype_def toLowerCase_def toLowerChar_def)

text \<open>
  C5. For a file whose extension is \<open>constructor\<close>, the lookup in \<open>MIME_TYPES\<close> finds
  the function \<open>Object\<close> inherited from \<open>Object.prototype\<close>; the middleware sets it as
  \<open>Content-Type\<close>, where an extension outside the table should give the empty string.
\<close>

theorem serveStatic_inherited_extension:
  "map_sum id (\<lambda>r. (headers r, sock r))
     (serveStatic (one_file_fs ''public/x.constructor'' ''data'') ''public''
        (Request ''GET /x.constructor HTTP/1.1'') (Response [] None None) next)
   = Inr ([(''Content-Type'', JFunction ''Object'')],
          [Write (''HTTP/1.1 200 OK'' @ CRLF),
           Write (''Content-Type: function Object() { [native code] }'' @ CRLF),
           Write CRLF, Write ''data'', End])"
proof -
  have j: "posix_join ''public'' (path (Request ''GET /x.constructor HTTP/1.1''))
             = Inr ''public/x.constructor''"
    by (simp add: Request_constructor_file posix_join_constructor_file)
  have f: "one_file_fs ''public/x.constructor'' ''data'' ''public/x.constructor'' = Some ''data''"
    by (simp add: one_file_fs_def)
  show ?thesis
    using serveStatic_read_success
            [where readFile = "one_file_fs ''public/x.constructor'' ''data''", OF j f]
    by (simp add: getMIMEType_constructor_file response_eval_defs)
qed


end
